theory Spec2Isabelle
  imports Complex_Main
begin

section \<open>Wild Tree: the user store, the cooldowns and the level-up rollover\<close>

text \<open>
  A shallow embedding of \<^verbatim>\<open>wild_tree_bot_release.py\<close>. Python integers are
  \<open>int\<close>. The values of \<^verbatim>\<open>time.time()\<close> and the result of \<^verbatim>\<open>level ** 1.6\<close>
  are binary floating-point numbers in the source; here they are real numbers, so a clock
  reading is any real and the power is the exact one. Every clock reading is an argument
  of the function that takes it. The SQLite table \<^verbatim>\<open>users\<close> is a map from the primary
  key to the row; its columns are only ever written by \<^verbatim>\<open>ensure_user\<close> and
  \<^verbatim>\<open>update_user\<close>, with numbers, so a row holds no NULL.
\<close>

subsection \<open>Constants\<close>

definition WATER_COOLDOWN :: real where
  "WATER_COOLDOWN = 300"

definition DAILY_COOLDOWN :: real where
  "DAILY_COOLDOWN = 24 * 3600"

definition SUN_COOLDOWN :: real where
  "SUN_COOLDOWN = 600"

definition MAX_LEVEL :: int where
  "MAX_LEVEL = 20"

subsection \<open>Errors, rows, replies\<close>

datatype error = TypeError

record user =
  user_id :: int
  created :: real
  last_water :: real
  last_daily :: real
  level :: int
  exp :: int
  sun :: int
  water :: int

text \<open>
  The keyword arguments of \<^verbatim>\<open>update_user\<close>, in the order they are passed: each is
  one assignment of the SQL \<^verbatim>\<open>SET\<close> clause.
\<close>

datatype assign =
    SetLastWater real
  | SetLastDaily real
  | SetLevel int
  | SetExp int
  | SetSun int
  | SetWater int

datatype glyph = Seedling | Herb | Deciduous | Evergreen | Palm

datatype art = Sprout glyph | Trunk glyph

text \<open>
  One constructor for each text that a handler passes to \<^verbatim>\<open>m.answer\<close>, with the
  values that the f-string formats into it.
\<close>

datatype reply =
    Welcome
  | StatusMsg int int int int int int art
  | WaterWait int int
  | WaterOk
  | SunWait int int
  | SunOk
  | LevelUpMsg int
  | RoadmapMsg
  | StakingMsg
  | DailyWait int int
  | DailyOk int int int
  | ProfileMsg string int int int int int int
  | FallbackMsg

text \<open>
  The state of the process: the table, the attribute \<^verbatim>\<open>handler_sun.last_sun\<close>
  (\<open>None\<close> while it has not been set) and the rows written by the committed statements,
  oldest first, each with the key it was written under.
\<close>

record world =
  rows :: "int \<rightharpoonup> user"
  sun_attr :: "real option"
  journal :: "(int \<times> user) list"

subsection \<open>Database\<close>

definition ensure_user :: "int \<Rightarrow> real \<Rightarrow> world \<Rightarrow> world" where
  "ensure_user uid t w =
     (case rows w uid of
        None \<Rightarrow>
          (let r = \<lparr>user_id = uid, created = t, last_water = 0, last_daily = 0,
                    level = 1, exp = 0, sun = 0, water = 0\<rparr>
           in w\<lparr>rows := (rows w)(uid \<mapsto> r), journal := journal w @ [(uid, r)]\<rparr>)
      | Some row \<Rightarrow> w)"

definition get_user :: "int \<Rightarrow> world \<Rightarrow> user option" where
  "get_user uid w = rows w uid"

fun apply_assign :: "assign \<Rightarrow> user \<Rightarrow> user" where
  "apply_assign (SetLastWater t) r = r\<lparr>last_water := t\<rparr>"
| "apply_assign (SetLastDaily t) r = r\<lparr>last_daily := t\<rparr>"
| "apply_assign (SetLevel n) r = r\<lparr>level := n\<rparr>"
| "apply_assign (SetExp n) r = r\<lparr>exp := n\<rparr>"
| "apply_assign (SetSun n) r = r\<lparr>sun := n\<rparr>"
| "apply_assign (SetWater n) r = r\<lparr>water := n\<rparr>"

definition update_user :: "int \<Rightarrow> assign list \<Rightarrow> world \<Rightarrow> world" where
  "update_user uid kwargs w =
     (if kwargs = [] then w
      else case rows w uid of
             None \<Rightarrow> w
           | Some row \<Rightarrow>
               (let r = fold apply_assign kwargs row
                in w\<lparr>rows := (rows w)(uid \<mapsto> r), journal := journal w @ [(uid, r)]\<rparr>))"

subsection \<open>Leveling\<close>

text \<open>
  \<^verbatim>\<open>ceil(5 * (level ** 1.6))\<close>. A negative integer to the power \<open>1.6\<close> is a complex
  number in Python, and \<^verbatim>\<open>ceil\<close> of a complex number raises \<^verbatim>\<open>TypeError\<close>. The
  exact power stands for the floating-point one: the two ceilings are the same for the
  levels 0 to 21, which include every level the program stores and every level at which it
  calls the function; they differ first at level 32, a fifth power, where the program
  returns 1281 and the exact ceiling is 1280.
\<close>

definition exp_needed_for :: "int \<Rightarrow> error + int" where
  "exp_needed_for lvl =
     (if lvl < 0 then Inl TypeError else Inr \<lceil>5 * (real_of_int lvl powr 1.6)\<rceil>)"

text \<open>
  For running \<open>exp_needed_for\<close>: the least integer from \<open>n\<close> on whose fifth power
  is at least \<open>t\<close>, looked for in at most \<open>k\<close> steps. It is not part of the program;
  \<open>exp_needed_for_code\<close> below proves that it computes the ceiling.
\<close>

fun ceil_root5 :: "nat \<Rightarrow> int \<Rightarrow> int \<Rightarrow> int" where
  "ceil_root5 0 n t = n"
| "ceil_root5 (Suc k) n t = (if t \<le> n ^ 5 then n else ceil_root5 k (n + 1) t)"

text \<open>
  The loop of \<^verbatim>\<open>check_level_up\<close> on its four local variables. The result is the
  list of level-up replies in the order they are sent, and either the error raised by the
  loop condition or the values of the variables when the loop is left. Python's
  \<^verbatim>\<open>and\<close> evaluates \<^verbatim>\<open>exp_needed_for\<close> only when \<^verbatim>\<open>level < MAX_LEVEL\<close>.
\<close>

function level_loop ::
  "int \<Rightarrow> int \<Rightarrow> int \<Rightarrow> int \<Rightarrow> reply list \<times> (error + int \<times> int \<times> int \<times> int)" where
  "level_loop lvl xp sn wt =
     (if lvl < MAX_LEVEL then
        (case exp_needed_for lvl of
           Inl e \<Rightarrow> ([], Inl e)
         | Inr need \<Rightarrow>
             if xp \<ge> need then
               (case level_loop (lvl + 1) (xp - need) (sn + 1) (wt + 1) of
                  (ms, r) \<Rightarrow> (LevelUpMsg (lvl + 1) # ms, r))
             else ([], Inr (lvl, xp, sn, wt)))
      else ([], Inr (lvl, xp, sn, wt)))"
  by pat_completeness auto
termination
  by (relation "measure (\<lambda>(lvl, xp, sn, wt). nat (MAX_LEVEL - lvl))") auto

declare level_loop.simps [simp del]

text \<open>
  The same loop with nothing assumed about its termination: \<open>None\<close> is a run that never
  leaves the loop.
\<close>

partial_function (option) level_loop_run ::
  "int \<Rightarrow> int \<Rightarrow> int \<Rightarrow> int \<Rightarrow> (reply list \<times> (error + int \<times> int \<times> int \<times> int)) option" where
  "level_loop_run lvl xp sn wt =
     (if lvl < MAX_LEVEL then
        (case exp_needed_for lvl of
           Inl e \<Rightarrow> Some ([], Inl e)
         | Inr need \<Rightarrow>
             if xp \<ge> need then
               Option.bind (level_loop_run (lvl + 1) (xp - need) (sn + 1) (wt + 1))
                 (\<lambda>(ms, r). Some (LevelUpMsg (lvl + 1) # ms, r))
             else Some ([], Inr (lvl, xp, sn, wt)))
      else Some ([], Inr (lvl, xp, sn, wt)))"

subsection \<open>ASCII art\<close>

definition ASCII_TREE :: "int \<rightharpoonup> glyph" where
  "ASCII_TREE = [1 \<mapsto> Seedling, 2 \<mapsto> Herb, 3 \<mapsto> Deciduous, 4 \<mapsto> Evergreen, 5 \<mapsto> Palm]"

definition ascii_for :: "int \<Rightarrow> art" where
  "ascii_for lvl =
     (if lvl < 3 then Sprout (case ASCII_TREE lvl of None \<Rightarrow> Seedling | Some g \<Rightarrow> g)
      else Trunk (case ASCII_TREE (min lvl 5) of None \<Rightarrow> Deciduous | Some g \<Rightarrow> g))"

subsection \<open>Handlers\<close>

text \<open>
  A handler returns the replies it has sent, the exception that ended it (if any), and the
  state of the process. Its arguments are the sender's id, the clock reading taken inside
  \<^verbatim>\<open>ensure_user\<close> and the handler's own reading \<^verbatim>\<open>now\<close>. Unpacking the result of
  \<^verbatim>\<open>get_user\<close> raises \<^verbatim>\<open>TypeError\<close> when there is no row.
\<close>

type_synonym outcome = "reply list \<times> error option"

text \<open>\<^verbatim>\<open>int(x)\<close> on a float truncates towards zero.\<close>

definition py_int :: "real \<Rightarrow> int" where
  "py_int x = (if 0 \<le> x then \<lfloor>x\<rfloor> else \<lceil>x\<rceil>)"

definition cmd_start :: "int \<Rightarrow> real \<Rightarrow> world \<Rightarrow> outcome \<times> world" where
  "cmd_start uid t0 w = (([Welcome], None), ensure_user uid t0 w)"

definition handler_status :: "int \<Rightarrow> real \<Rightarrow> world \<Rightarrow> outcome \<times> world" where
  "handler_status uid t0 w =
     (let w1 = ensure_user uid t0 w in
      case get_user uid w1 of
        None \<Rightarrow> (([], Some TypeError), w1)
      | Some u \<Rightarrow>
          (case exp_needed_for (level u) of
             Inl e \<Rightarrow> (([], Some e), w1)
           | Inr needed \<Rightarrow>
               (([StatusMsg (level u) MAX_LEVEL (exp u) needed (sun u) (water u)
                    (ascii_for (level u))], None), w1)))"

definition check_level_up :: "int \<Rightarrow> world \<Rightarrow> outcome \<times> world" where
  "check_level_up uid w =
     (case get_user uid w of
        None \<Rightarrow> (([], Some TypeError), w)
      | Some u \<Rightarrow>
          (case level_loop (level u) (exp u) (sun u) (water u) of
             (ms, Inl e) \<Rightarrow> ((ms, Some e), w)
           | (ms, Inr (lvl, xp, sn, wt)) \<Rightarrow>
               ((ms, None),
                update_user uid [SetLevel lvl, SetExp xp, SetSun sn, SetWater wt] w)))"

text \<open>The replies sent before \<^verbatim>\<open>check_level_up\<close> come first.\<close>

definition after_reply :: "reply \<Rightarrow> outcome \<times> world \<Rightarrow> outcome \<times> world" where
  "after_reply m res = (case res of ((ms, e), w) \<Rightarrow> ((m # ms, e), w))"

text \<open>
  \<^verbatim>\<open>last_water or 0\<close> is \<^verbatim>\<open>last_water\<close> itself: the column is a number, and the only
  number that \<^verbatim>\<open>or\<close> replaces is zero.
\<close>

definition handler_water :: "int \<Rightarrow> real \<Rightarrow> real \<Rightarrow> world \<Rightarrow> outcome \<times> world" where
  "handler_water uid t0 now w =
     (let w1 = ensure_user uid t0 w in
      case get_user uid w1 of
        None \<Rightarrow> (([], Some TypeError), w1)
      | Some u \<Rightarrow>
          if now - last_water u < WATER_COOLDOWN then
            (let remain = py_int (WATER_COOLDOWN - (now - last_water u))
             in (([WaterWait (remain div 60) (remain mod 60)], None), w1))
          else
            after_reply WaterOk
              (check_level_up uid
                 (update_user uid
                    [SetWater (water u + 1), SetExp (exp u + 2), SetLastWater now] w1)))"

text \<open>
  \<^verbatim>\<open>getattr(handler_sun, "last_sun", 0)\<close> reads the attribute of the function object,
  which is one for the whole process.
\<close>

definition getattr_last_sun :: "world \<Rightarrow> real" where
  "getattr_last_sun w = (case sun_attr w of None \<Rightarrow> 0 | Some t \<Rightarrow> t)"

definition handler_sun :: "int \<Rightarrow> real \<Rightarrow> real \<Rightarrow> world \<Rightarrow> outcome \<times> world" where
  "handler_sun uid t0 now w =
     (let w1 = ensure_user uid t0 w in
      case get_user uid w1 of
        None \<Rightarrow> (([], Some TypeError), w1)
      | Some u \<Rightarrow>
          (let last_sun = getattr_last_sun w1 in
           if now - last_sun < SUN_COOLDOWN then
             (let remain = py_int (SUN_COOLDOWN - (now - last_sun))
              in (([SunWait (remain div 60) (remain mod 60)], None), w1))
           else
             (let w2 = w1\<lparr>sun_attr := Some now\<rparr>
              in after_reply SunOk
                   (check_level_up uid
                      (update_user uid [SetSun (sun u + 1), SetExp (exp u + 2)] w2)))))"

definition handler_daily :: "int \<Rightarrow> real \<Rightarrow> real \<Rightarrow> world \<Rightarrow> outcome \<times> world" where
  "handler_daily uid t0 now w =
     (let w1 = ensure_user uid t0 w in
      case get_user uid w1 of
        None \<Rightarrow> (([], Some TypeError), w1)
      | Some u \<Rightarrow>
          if now - last_daily u < DAILY_COOLDOWN then
            (let remain = py_int ((last_daily u + DAILY_COOLDOWN) - now)
             in (([DailyWait (remain div 3600) ((remain mod 3600) div 60)], None), w1))
          else
            (let reward_sun = 1 + level u div 5;
                 reward_water = 1 + level u div 6;
                 reward_exp = 5 + level u
             in after_reply (DailyOk reward_sun reward_water reward_exp)
                  (check_level_up uid
                     (update_user uid
                        [SetSun (sun u + reward_sun), SetWater (water u + reward_water),
                         SetExp (exp u + reward_exp), SetLastDaily now] w1))))"

definition handler_profile :: "int \<Rightarrow> string \<Rightarrow> real \<Rightarrow> world \<Rightarrow> outcome \<times> world" where
  "handler_profile uid first_name t0 w =
     (let w1 = ensure_user uid t0 w in
      case get_user uid w1 of
        None \<Rightarrow> (([], Some TypeError), w1)
      | Some u \<Rightarrow>
          (case exp_needed_for (level u) of
             Inl e \<Rightarrow> (([], Some e), w1)
           | Inr needed \<Rightarrow>
               (([ProfileMsg first_name (level u) MAX_LEVEL (exp u) needed (sun u)
                    (water u)], None), w1)))"

text \<open>
  The dispatcher runs the first registered handler whose filter accepts the message; the
  filters compare the text with pairwise different strings, so a message selects one
  action.
\<close>

datatype action =
  Start | Status | Water | Sun | Roadmap | Staking | Daily | Profile | Fallback

fun dispatch ::
  "action \<Rightarrow> int \<Rightarrow> string \<Rightarrow> real \<Rightarrow> real \<Rightarrow> world \<Rightarrow> outcome \<times> world" where
  "dispatch Start uid name t0 now w = cmd_start uid t0 w"
| "dispatch Status uid name t0 now w = handler_status uid t0 w"
| "dispatch Water uid name t0 now w = handler_water uid t0 now w"
| "dispatch Sun uid name t0 now w = handler_sun uid t0 now w"
| "dispatch Roadmap uid name t0 now w = (([RoadmapMsg], None), w)"
| "dispatch Staking uid name t0 now w = (([StakingMsg], None), w)"
| "dispatch Daily uid name t0 now w = handler_daily uid t0 now w"
| "dispatch Profile uid name t0 now w = handler_profile uid name t0 w"
| "dispatch Fallback uid name t0 now w = (([FallbackMsg], None), w)"

subsection \<open>States used in the examples\<close>

text \<open>A process that has just started on an empty table, and one whose table holds one row.\<close>

definition world0 :: world where
  "world0 = \<lparr>rows = Map.empty, sun_attr = None, journal = []\<rparr>"

definition one_user :: "user \<Rightarrow> world" where
  "one_user u = \<lparr>rows = [user_id u \<mapsto> u], sun_attr = None, journal = []\<rparr>"

text \<open>
  The row of a user whose first message was the daily bonus at time 100000 and whose second
  message was water at the same time.
\<close>

definition sample_user :: user where
  "sample_user = \<lparr>user_id = 7, created = 100000, last_water = 100000, last_daily = 100000,
                   level = 2, exp = 3, sun = 2, water = 3\<rparr>"

subsection \<open>The levels of the stored rows\<close>

text \<open>Every stored level is in the range of the data model, from 1 to \<open>MAX_LEVEL\<close>.\<close>

definition levels_in_range :: "world \<Rightarrow> bool" where
  "levels_in_range w \<longleftrightarrow> (\<forall>uid u. rows w uid = Some u \<longrightarrow> 1 \<le> level u \<and> level u \<le> MAX_LEVEL)"

section \<open>The experience requirement\<close>

text \<open>
  The fifth power of \<open>5 * lvl powr 1.6\<close> is the integer \<open>3125 * lvl ^ 8\<close>, so the ceiling
  is found by comparing fifth powers of integers.
\<close>

lemma five_pow_x:
  fixes lvl :: int
  assumes "0 \<le> lvl"
  shows "(5 * (real_of_int lvl powr 1.6)) ^ 5 = 3125 * real_of_int lvl ^ 8"
proof -
  have "(real_of_int lvl powr 1.6) ^ 5 = (real_of_int lvl powr 1.6) powr 5"
    by simp
  also have "\<dots> = real_of_int lvl powr 8"
    by (simp only: powr_powr) simp
  also have "\<dots> = real_of_int lvl ^ 8"
    using assms by simp
  finally show ?thesis
    by (simp add: power_mult_distrib)
qed

lemma exp_needed_for_bracket:
  fixes lvl n :: int
  assumes "0 \<le> lvl" "0 < n" "(n - 1) ^ 5 < 3125 * lvl ^ 8" "3125 * lvl ^ 8 \<le> n ^ 5"
  shows "exp_needed_for lvl = Inr n"
proof -
  define x :: real where "x = 5 * (real_of_int lvl powr 1.6)"
  have x0: "0 \<le> x" by (simp add: x_def)
  have x5: "x ^ 5 = real_of_int (3125 * lvl ^ 8)"
    using five_pow_x [OF assms(1)] by (simp add: x_def)
  have "real_of_int ((n - 1) ^ 5) < real_of_int (3125 * lvl ^ 8)"
    using assms(3) by (simp only: of_int_less_iff)
  then have "real_of_int (n - 1) ^ 5 < x ^ 5"
    by (simp add: x5)
  then have lo: "real_of_int (n - 1) < x"
    using x0 by (rule power_less_imp_less_base)
  have "real_of_int (3125 * lvl ^ 8) \<le> real_of_int (n ^ 5)"
    using assms(4) by (simp only: of_int_le_iff)
  then have "x ^ 5 \<le> real_of_int n ^ 5"
    by (simp add: x5)
  then have hi: "x \<le> real_of_int n"
    using assms(2) by (intro power_le_imp_le_base [of x 4 "real_of_int n"]) simp_all
  have "\<lceil>x\<rceil> = n"
    using lo hi by (intro ceiling_unique) simp_all
  then show ?thesis
    using assms(1) by (simp add: exp_needed_for_def x_def)
qed

lemma ceil_root5_bracket:
  "0 \<le> n \<Longrightarrow> n = 0 \<or> (n - 1) ^ 5 < t \<Longrightarrow> t \<le> (n + int k) ^ 5 \<Longrightarrow>
   t \<le> ceil_root5 k n t ^ 5 \<and> 0 \<le> ceil_root5 k n t
   \<and> (ceil_root5 k n t = 0 \<or> (ceil_root5 k n t - 1) ^ 5 < t)"
proof (induction k arbitrary: n)
  case 0
  then show ?case by simp
next
  case (Suc k)
  show ?case
  proof (cases "t \<le> n ^ 5")
    case True
    then show ?thesis using Suc.prems by simp
  next
    case False
    have "n + int (Suc k) = n + 1 + int k"
      by simp
    then have "t \<le> (n + 1 + int k) ^ 5"
      using Suc.prems(3) by (simp only:)
    then show ?thesis
      using Suc.IH [of "n + 1"] Suc.prems(1) False by simp
  qed
qed

lemma exp_needed_for_code [code]:
  "exp_needed_for lvl =
     (if lvl < 0 then Inl TypeError
      else Inr (ceil_root5 (nat (5 * lvl * lvl)) 0 (3125 * lvl ^ 8)))"
proof (cases "lvl < 0")
  case True
  then show ?thesis by (simp add: exp_needed_for_def)
next
  case False
  then have l0: "0 \<le> lvl" by simp
  define r where "r = ceil_root5 (nat (5 * lvl * lvl)) 0 (3125 * lvl ^ 8)"
  have "lvl ^ 8 \<le> lvl ^ 10"
  proof (cases "lvl = 0")
    case True
    then show ?thesis by simp
  next
    case False
    then have "1 \<le> lvl" using l0 by simp
    then show ?thesis by (intro power_increasing) simp_all
  qed
  then have "3125 * lvl ^ 8 \<le> (5 * lvl * lvl) ^ 5"
    by (simp add: power_mult_distrib power2_eq_square [symmetric] flip: power_mult)
  moreover have "int (nat (5 * lvl * lvl)) = 5 * lvl * lvl"
    using l0 by simp
  ultimately have "3125 * lvl ^ 8 \<le> (0 + int (nat (5 * lvl * lvl))) ^ 5"
    by simp
  from ceil_root5_bracket [OF _ _ this]
  have br: "3125 * lvl ^ 8 \<le> r ^ 5" "0 \<le> r" "r = 0 \<or> (r - 1) ^ 5 < 3125 * lvl ^ 8"
    by (simp_all add: r_def)
  have "exp_needed_for lvl = Inr r"
  proof (cases "r = 0")
    case True
    then have "lvl ^ 8 \<le> 0" using br(1) by simp
    then have "lvl = 0" using l0 by (simp add: power_le_zero_eq)
    then show ?thesis using True by (simp add: exp_needed_for_def)
  next
    case False
    then show ?thesis
      using br l0 by (intro exp_needed_for_bracket) simp_all
  qed
  then show ?thesis using False by (simp add: r_def)
qed

lemma exp_needed_for_values:
  "exp_needed_for 0 = Inr 0"
  "exp_needed_for 1 = Inr 5"
  "exp_needed_for 2 = Inr 16"
  "exp_needed_for 3 = Inr 29"
  "exp_needed_for 4 = Inr 46"
  "exp_needed_for 5 = Inr 66"
  "exp_needed_for 6 = Inr 88"
  "exp_needed_for 7 = Inr 113"
  "exp_needed_for 8 = Inr 140"
  "exp_needed_for 9 = Inr 169"
  "exp_needed_for 10 = Inr 200"
  "exp_needed_for 11 = Inr 232"
  "exp_needed_for 12 = Inr 267"
  "exp_needed_for 13 = Inr 303"
  "exp_needed_for 14 = Inr 342"
  "exp_needed_for 15 = Inr 381"
  "exp_needed_for 16 = Inr 423"
  "exp_needed_for 17 = Inr 466"
  "exp_needed_for 18 = Inr 510"
  "exp_needed_for 19 = Inr 556"
  "exp_needed_for 20 = Inr 604"
  "exp_needed_for 21 = Inr 653"
  by (simp add: exp_needed_for_def, (rule exp_needed_for_bracket, simp_all)+)

lemma exp_needed_for_positive:
  assumes "1 \<le> lvl"
  shows "\<exists>n. exp_needed_for lvl = Inr n \<and> 0 < n"
proof -
  have "0 < 5 * (real_of_int lvl powr 1.6)"
    using assms by simp
  then have "0 < \<lceil>5 * (real_of_int lvl powr 1.6)\<rceil>"
    by (simp only: zero_less_ceiling)
  then show ?thesis
    using assms by (simp add: exp_needed_for_def)
qed

lemma powr_step:
  fixes x :: real
  assumes "0 \<le> x"
  shows "x powr 1.6 + 1 \<le> (x + 1) powr 1.6"
proof -
  define p where "p = (x + 1) powr 0.6"
  define q where "q = x powr 0.6"
  have a: "(x + 1) powr 1.6 = (x + 1) * p"
    using assms powr_mult_base [of "x + 1" "0.6"] by (simp add: p_def)
  have b: "x powr 1.6 = x * q"
  proof (cases "x = 0")
    case True
    then show ?thesis by simp
  next
    case False
    then have "0 < x" using assms by simp
    then show ?thesis using powr_mult_base [of x "0.6"] by (simp add: q_def)
  qed
  have c: "q \<le> p"
    unfolding p_def q_def using assms by (intro powr_mono2) simp_all
  have d: "1 \<le> p"
    unfolding p_def using assms by (intro ge_one_powr_ge_zero) simp_all
  have "x * q \<le> x * p"
    using c assms by (rule mult_left_mono)
  then have "x * q + 1 \<le> x * p + p"
    using d by linarith
  also have "\<dots> = (x + 1) * p"
    by (simp add: algebra_simps)
  finally show ?thesis
    by (simp only: a b)
qed

lemma exp_needed_for_step:
  assumes "0 \<le> lvl"
  shows "\<exists>a b. exp_needed_for lvl = Inr a \<and> exp_needed_for (lvl + 1) = Inr b \<and> a < b"
proof -
  have "real_of_int lvl powr 1.6 + 1 \<le> (real_of_int lvl + 1) powr 1.6"
    using assms by (intro powr_step) simp
  then have "5 * (real_of_int lvl powr 1.6) + 1 \<le> 5 * ((real_of_int lvl + 1) powr 1.6)"
    by linarith
  then have "\<lceil>5 * (real_of_int lvl powr 1.6) + 1\<rceil> \<le> \<lceil>5 * ((real_of_int lvl + 1) powr 1.6)\<rceil>"
    by (rule ceiling_mono)
  then have "\<lceil>5 * (real_of_int lvl powr 1.6)\<rceil> < \<lceil>5 * ((real_of_int lvl + 1) powr 1.6)\<rceil>"
    by simp
  then show ?thesis
    using assms by (simp add: exp_needed_for_def)
qed

text \<open>
  Claim C6. \<^verbatim>\<open>exp_needed_for(level)\<close> is the ceiling of \<open>5 * level ^ 1.6\<close> on the
  levels from 0 to \<open>MAX_LEVEL + 1\<close>, where the exact power and the program's agree, and
  it is strictly increasing: for every level from 1 to \<open>MAX_LEVEL\<close> the requirement of
  the next level is greater.
\<close>

theorem exp_needed_for_ceiling_strict_mono:
  "(0 \<le> lvl \<and> lvl \<le> MAX_LEVEL + 1 \<longrightarrow>
      exp_needed_for lvl = Inr \<lceil>5 * (real_of_int lvl powr 1.6)\<rceil>)
   \<and> (1 \<le> lvl \<and> lvl \<le> MAX_LEVEL \<longrightarrow>
        (\<exists>a b. exp_needed_for lvl = Inr a \<and> exp_needed_for (lvl + 1) = Inr b \<and> a < b))"
  using exp_needed_for_step [of lvl] by (simp add: exp_needed_for_def)

theorem exp_needed_for_ceiling_strict_mono_witness:
  "(0::int) \<le> 20 \<and> (20::int) \<le> MAX_LEVEL + 1 \<and> (1::int) \<le> 20 \<and> (20::int) \<le> MAX_LEVEL
   \<and> exp_needed_for 20 = Inr \<lceil>5 * (real_of_int 20 powr 1.6)\<rceil>
   \<and> exp_needed_for 20 = Inr 604 \<and> exp_needed_for (20 + 1) = Inr 653 \<and> (604::int) < 653"
  using exp_needed_for_ceiling_strict_mono [of 20]
  by (simp add: exp_needed_for_values MAX_LEVEL_def)

section \<open>The store\<close>

lemma ensure_user_present: "rows (ensure_user uid t w) uid \<noteq> None"
  by (simp add: ensure_user_def Let_def split: option.splits)

lemma ensure_user_existing: "rows w uid = Some r \<Longrightarrow> ensure_user uid t w = w"
  by (simp add: ensure_user_def)

lemma ensure_user_other: "b \<noteq> uid \<Longrightarrow> rows (ensure_user uid t w) b = rows w b"
  by (simp add: ensure_user_def Let_def split: option.splits)

lemma update_user_other: "b \<noteq> uid \<Longrightarrow> rows (update_user uid kw w) b = rows w b"
  by (simp add: update_user_def Let_def split: option.splits)

lemma check_level_up_other: "b \<noteq> uid \<Longrightarrow> rows (snd (check_level_up uid w)) b = rows w b"
  by (simp add: check_level_up_def get_user_def update_user_other
           split: option.splits prod.splits sum.splits)

lemma after_reply_snd: "snd (after_reply m res) = snd res"
  by (simp add: after_reply_def split: prod.splits)

lemma update_user_row:
  "rows w uid = Some u \<Longrightarrow> kw \<noteq> [] \<Longrightarrow>
   update_user uid kw w =
     w\<lparr>rows := (rows w)(uid \<mapsto> fold apply_assign kw u),
       journal := journal w @ [(uid, fold apply_assign kw u)]\<rparr>"
  by (simp add: update_user_def Let_def)

lemma handler_water_other:
  "b \<noteq> a \<Longrightarrow> rows (snd (handler_water a t0 now w)) b = rows w b"
  by (simp add: handler_water_def Let_def after_reply_snd check_level_up_other
        update_user_other ensure_user_other split: option.splits)

lemma handler_sun_other:
  "b \<noteq> a \<Longrightarrow> rows (snd (handler_sun a t0 now w)) b = rows w b"
  by (simp add: handler_sun_def Let_def after_reply_snd check_level_up_other
        update_user_other ensure_user_other split: option.splits)

lemma handler_daily_other:
  "b \<noteq> a \<Longrightarrow> rows (snd (handler_daily a t0 now w)) b = rows w b"
  by (simp add: handler_daily_def Let_def after_reply_snd check_level_up_other
        update_user_other ensure_user_other split: option.splits)

lemma handler_status_other:
  "b \<noteq> a \<Longrightarrow> rows (snd (handler_status a t0 w)) b = rows w b"
  by (simp add: handler_status_def Let_def ensure_user_other split: option.splits sum.splits)

lemma handler_profile_other:
  "b \<noteq> a \<Longrightarrow> rows (snd (handler_profile a name t0 w)) b = rows w b"
  by (simp add: handler_profile_def Let_def ensure_user_other split: option.splits sum.splits)

text \<open>
  Claim C8. \<^verbatim>\<open>ensure_user\<close> is idempotent: a second call (at any later clock reading)
  changes nothing; the first call on an id without a row creates the zero-state row
  (level 1, no experience, no sun, no water, timestamps zero); a call on an id that has a
  row changes nothing at all, so no field is overwritten.
\<close>

theorem ensure_idempotent:
  "ensure_user uid t2 (ensure_user uid t1 w) = ensure_user uid t1 w
   \<and> (rows w uid = None \<longrightarrow>
        rows (ensure_user uid t1 w) uid =
          Some \<lparr>user_id = uid, created = t1, last_water = 0, last_daily = 0,
                level = 1, exp = 0, sun = 0, water = 0\<rparr>)
   \<and> (rows w uid \<noteq> None \<longrightarrow> ensure_user uid t1 w = w)"
  by (auto simp add: ensure_user_def Let_def split: option.splits)

theorem ensure_idempotent_witness:
  "rows world0 7 = None
   \<and> rows (ensure_user 7 100 world0) 7 =
        Some \<lparr>user_id = 7, created = 100, last_water = 0, last_daily = 0,
              level = 1, exp = 0, sun = 0, water = 0\<rparr>
   \<and> rows (ensure_user 7 100 world0) 7 \<noteq> None
   \<and> ensure_user 7 200 (ensure_user 7 100 world0) = ensure_user 7 100 world0"
  using ensure_idempotent [of 7 200 100 world0]
    ensure_idempotent [of 7 300 200 "ensure_user 7 100 world0"]
  by (simp add: world0_def)

text \<open>
  Claim C10. Whatever action the dispatcher runs for user \<open>a\<close>, the row stored for any
  other user \<open>b\<close> (all eight columns, or the absence of a row) is the same afterwards.
\<close>

theorem frame:
  assumes "b \<noteq> a"
  shows "rows (snd (dispatch act a name t0 now w)) b = rows w b"
  using assms
  by (cases act)
     (simp_all add: handler_water_other handler_sun_other handler_daily_other
        handler_status_other handler_profile_other cmd_start_def ensure_user_other)

theorem frame_witness:
  "(2::int) \<noteq> 1
   \<and> rows (snd (dispatch Water 1 ''ann'' 1000 1000 (ensure_user 2 50 world0))) 2 =
       rows (ensure_user 2 50 world0) 2
   \<and> rows (ensure_user 2 50 world0) 2 =
        Some \<lparr>user_id = 2, created = 50, last_water = 0, last_daily = 0,
              level = 1, exp = 0, sun = 0, water = 0\<rparr>"
  using frame [of 2 1 Water "''ann''" 1000 1000 "ensure_user 2 50 world0"]
  by (simp add: world0_def ensure_user_def Let_def)

section \<open>The level-up rollover\<close>

text \<open>The four ways through one evaluation of the loop condition.\<close>

lemma level_loop_stop:
  "\<not> lvl < MAX_LEVEL \<Longrightarrow> level_loop lvl xp sn wt = ([], Inr (lvl, xp, sn, wt))"
  by (subst level_loop.simps) simp

lemma level_loop_raise:
  "lvl < MAX_LEVEL \<Longrightarrow> exp_needed_for lvl = Inl e \<Longrightarrow> level_loop lvl xp sn wt = ([], Inl e)"
  by (subst level_loop.simps) simp

lemma level_loop_short:
  "lvl < MAX_LEVEL \<Longrightarrow> exp_needed_for lvl = Inr need \<Longrightarrow> xp < need \<Longrightarrow>
   level_loop lvl xp sn wt = ([], Inr (lvl, xp, sn, wt))"
  by (subst level_loop.simps) simp

lemma level_loop_step:
  "lvl < MAX_LEVEL \<Longrightarrow> exp_needed_for lvl = Inr need \<Longrightarrow> need \<le> xp \<Longrightarrow>
   level_loop lvl xp sn wt =
     (case level_loop (lvl + 1) (xp - need) (sn + 1) (wt + 1) of
        (ms, r) \<Rightarrow> (LevelUpMsg (lvl + 1) # ms, r))"
  by (subst level_loop.simps) simp

lemma exp_needed_for_defined:
  "0 \<le> lvl \<Longrightarrow> \<exists>n. exp_needed_for lvl = Inr n"
  by (simp add: exp_needed_for_def)

lemma level_loop_shape:
  "0 \<le> lvl \<Longrightarrow>
   \<exists>l e. lvl \<le> l \<and>
     level_loop lvl xp sn wt =
       (map LevelUpMsg [lvl + 1..l], Inr (l, e, sn + (l - lvl), wt + (l - lvl)))"
proof (induction lvl xp sn wt rule: level_loop.induct)
  case (1 lvl xp sn wt)
  show ?case
  proof (cases "lvl < MAX_LEVEL")
    case False
    then have "level_loop lvl xp sn wt = (map LevelUpMsg [lvl + 1..lvl], Inr (lvl, xp, sn + (lvl - lvl), wt + (lvl - lvl)))"
      by (simp add: level_loop_stop)
    then show ?thesis by blast
  next
    case True
    obtain need where need: "exp_needed_for lvl = Inr need"
      using exp_needed_for_defined [OF "1.prems"] by blast
    show ?thesis
    proof (cases "need \<le> xp")
      case False
      then have "level_loop lvl xp sn wt = (map LevelUpMsg [lvl + 1..lvl], Inr (lvl, xp, sn + (lvl - lvl), wt + (lvl - lvl)))"
        using True need by (simp add: level_loop_short)
      then show ?thesis by blast
    next
      case le: True
      have "0 \<le> lvl + 1" using "1.prems" by simp
      from "1.IH" [OF True need le this]
      obtain l e where l: "lvl + 1 \<le> l"
        and eq: "level_loop (lvl + 1) (xp - need) (sn + 1) (wt + 1) =
                  (map LevelUpMsg [lvl + 1 + 1..l], Inr (l, e, sn + 1 + (l - (lvl + 1)), wt + 1 + (l - (lvl + 1))))"
        by blast
      have up: "[lvl + 1..l] = (lvl + 1) # [lvl + 1 + 1..l]"
        using l by (simp add: upto_rec1)
      have "level_loop lvl xp sn wt =
              (map LevelUpMsg [lvl + 1..l], Inr (l, e, sn + (l - lvl), wt + (l - lvl)))"
        using True need le eq up by (simp add: level_loop_step)
      moreover have "lvl \<le> l" using l by simp
      ultimately show ?thesis by blast
    qed
  qed
qed


lemma level_loop_run_total:
  "level_loop_run lvl xp sn wt = Some (level_loop lvl xp sn wt)"
proof (induction lvl xp sn wt rule: level_loop.induct)
  case (1 lvl xp sn wt)
  show ?case
  proof (cases "lvl < MAX_LEVEL")
    case False
    then show ?thesis
      by (subst level_loop_run.simps) (simp add: level_loop_stop)
  next
    case True
    show ?thesis
    proof (cases "exp_needed_for lvl")
      case (Inl e)
      then show ?thesis using True
        by (subst level_loop_run.simps) (simp add: level_loop_raise)
    next
      case (Inr need)
      show ?thesis
      proof (cases "need \<le> xp")
        case False
        then show ?thesis using True Inr
          by (subst level_loop_run.simps) (simp add: level_loop_short)
      next
        case le: True
        show ?thesis using True Inr le "1.IH" [OF True Inr le]
          by (subst level_loop_run.simps) (simp add: level_loop_step split: prod.splits)
      qed
    qed
  qed
qed

lemma level_loop_count:
  "0 \<le> lvl \<Longrightarrow> level_loop lvl xp sn wt = (ms, Inr (l, e, s, w)) \<Longrightarrow>
   l \<le> max lvl MAX_LEVEL \<and> int (length ms) = l - lvl"
proof (induction lvl xp sn wt arbitrary: ms rule: level_loop.induct)
  case (1 lvl xp sn wt)
  show ?case
  proof (cases "lvl < MAX_LEVEL")
    case False
    then show ?thesis using "1.prems" by (simp add: level_loop_stop)
  next
    case True
    obtain need where need: "exp_needed_for lvl = Inr need"
      using exp_needed_for_defined [OF "1.prems"(1)] by blast
    show ?thesis
    proof (cases "need \<le> xp")
      case False
      then show ?thesis using True need "1.prems" by (simp add: level_loop_short)
    next
      case le: True
      obtain ms' where rec: "level_loop (lvl + 1) (xp - need) (sn + 1) (wt + 1) = (ms', Inr (l, e, s, w))"
        and ms: "ms = LevelUpMsg (lvl + 1) # ms'"
        using "1.prems"(2) True need le
        by (auto simp add: level_loop_step split: prod.splits)
      show ?thesis
        using "1.IH" [OF True need le _ rec] "1.prems"(1) True ms by simp
    qed
  qed
qed

text \<open>The equations that run the program on a given state.\<close>

lemmas run_defs =
  world0_def one_user_def handler_water_def handler_sun_def handler_daily_def Let_def
  ensure_user_def get_user_def update_user_def check_level_up_def after_reply_def
  level_loop.simps exp_needed_for_values MAX_LEVEL_def WATER_COOLDOWN_def SUN_COOLDOWN_def
  DAILY_COOLDOWN_def py_int_def getattr_last_sun_def

lemma sum_int_head:
  fixes f :: "int \<Rightarrow> int"
  assumes "a < b"
  shows "(\<Sum>k = a..<b. f k) = f a + (\<Sum>k = a + 1..<b. f k)"
proof -
  have "{a..<b} = insert a {a + 1..<b}"
    using assms by auto
  then show ?thesis by simp
qed

lemma level_loop_closed:
  assumes req: "\<forall>k. 0 \<le> k \<longrightarrow> exp_needed_for k = Inr (req k)"
  shows "0 \<le> lvl \<Longrightarrow> level_loop lvl xp sn wt = (ms, Inr (l, e, s, w)) \<Longrightarrow>
     e = xp - (\<Sum>k = lvl..<l. req k)
     \<and> (\<forall>k\<in>{lvl..<l}. k < MAX_LEVEL \<and> req k \<le> xp - (\<Sum>j = lvl..<k. req j))
     \<and> \<not> (l < MAX_LEVEL \<and> req l \<le> e)"
proof (induction lvl xp sn wt arbitrary: ms rule: level_loop.induct)
  case (1 lvl xp sn wt)
  have need: "exp_needed_for lvl = Inr (req lvl)"
    using req "1.prems"(1) by simp
  show ?case
  proof (cases "lvl < MAX_LEVEL")
    case False
    then show ?thesis using "1.prems" by (simp add: level_loop_stop)
  next
    case True
    show ?thesis
    proof (cases "req lvl \<le> xp")
      case False
      then show ?thesis using True need "1.prems" by (simp add: level_loop_short)
    next
      case le: True
      obtain ms' where rec: "level_loop (lvl + 1) (xp - req lvl) (sn + 1) (wt + 1) = (ms', Inr (l, e, s, w))"
        using "1.prems"(2) True need le
        by (simp add: level_loop_step split: prod.splits)
      have l1: "0 \<le> lvl + 1" using "1.prems"(1) by simp
      have ll: "lvl < l"
        using level_loop_shape [OF l1, of "xp - req lvl" "sn + 1" "wt + 1"] rec by auto
      note ih = "1.IH" [OF True need le l1 rec]
      have e: "e = xp - (\<Sum>k = lvl..<l. req k)"
        using ih by (simp add: sum_int_head [OF ll])
      have en: "\<forall>k\<in>{lvl..<l}. k < MAX_LEVEL \<and> req k \<le> xp - (\<Sum>j = lvl..<k. req j)"
      proof
        fix k assume k: "k \<in> {lvl..<l}"
        show "k < MAX_LEVEL \<and> req k \<le> xp - (\<Sum>j = lvl..<k. req j)"
        proof (cases "k = lvl")
          case True
          then show ?thesis using \<open>lvl < MAX_LEVEL\<close> le by simp
        next
          case False
          then have k1: "k \<in> {lvl + 1..<l}" and lk: "lvl < k" using k by auto
          have "k < MAX_LEVEL" "req k \<le> xp - req lvl - (\<Sum>j = lvl + 1..<k. req j)"
            using ih k1 by blast+
          then show ?thesis
            by (simp add: sum_int_head [OF lk])
        qed
      qed
      show ?thesis using e en ih by blast
    qed
  qed
qed

lemma check_level_up_row:
  assumes "rows w uid = Some u" "0 \<le> level u"
  shows "\<exists>l e. level u \<le> l
     \<and> level_loop (level u) (exp u) (sun u) (water u) =
         (map LevelUpMsg [level u + 1..l],
          Inr (l, e, sun u + (l - level u), water u + (l - level u)))
     \<and> check_level_up uid w =
         ((map LevelUpMsg [level u + 1..l], None),
          w\<lparr>rows := (rows w)(uid \<mapsto> u\<lparr>level := l, exp := e,
                  sun := sun u + (l - level u), water := water u + (l - level u)\<rparr>),
            journal := journal w @
              [(uid, u\<lparr>level := l, exp := e,
                  sun := sun u + (l - level u), water := water u + (l - level u)\<rparr>)]\<rparr>)"
proof -
  obtain l e where le: "level u \<le> l"
    and eq: "level_loop (level u) (exp u) (sun u) (water u) =
      (map LevelUpMsg [level u + 1..l],
       Inr (l, e, sun u + (l - level u), water u + (l - level u)))"
    using level_loop_shape [OF assms(2), of "exp u" "sun u" "water u"] by blast
  have "check_level_up uid w =
          ((map LevelUpMsg [level u + 1..l], None),
           update_user uid [SetLevel l, SetExp e, SetSun (sun u + (l - level u)),
             SetWater (water u + (l - level u))] w)"
    by (simp add: check_level_up_def get_user_def assms(1) eq)
  then show ?thesis
    using le eq by (simp add: update_user_row [OF assms(1)])
qed

text \<open>
  Claim C3. \<^verbatim>\<open>check_level_up\<close>, for a user whose row has a level that is not negative,
  takes the level from \<open>level\<close> to some \<open>l\<close> such that: at every level \<open>k\<close> passed,
  \<open>k\<close> was below \<open>MAX_LEVEL\<close> and the experience left after paying the levels before
  \<open>k\<close> was at least the requirement of \<open>k\<close>; the experience \<open>e\<close> left is the experience
  less the requirements of the levels passed; and at \<open>l\<close> the loop condition fails. It
  sends one reply for each level gained, naming the new level, in increasing order, and
  stores, in one update, the level \<open>l\<close>, the experience \<open>e\<close>, and sun and water each
  increased by the number of levels gained. A user at level 1 with 5 experience is stored
  at level 2 with no experience left, one more sun and one more water, after one reply.
\<close>

theorem level_up_rollover:
  assumes "rows w uid = Some u" "0 \<le> level u"
  shows "(\<exists>req l e.
        (\<forall>k. 0 \<le> k \<longrightarrow> exp_needed_for k = Inr (req k))
      \<and> level u \<le> l
      \<and> (\<forall>k\<in>{level u..<l}. k < MAX_LEVEL \<and> req k \<le> exp u - (\<Sum>j = level u..<k. req j))
      \<and> e = exp u - (\<Sum>k = level u..<l. req k)
      \<and> \<not> (l < MAX_LEVEL \<and> req l \<le> e)
      \<and> check_level_up uid w =
          ((map LevelUpMsg [level u + 1..l], None),
           w\<lparr>rows := (rows w)(uid \<mapsto> u\<lparr>level := l, exp := e,
                   sun := sun u + (l - level u), water := water u + (l - level u)\<rparr>),
             journal := journal w @
               [(uid, u\<lparr>level := l, exp := e,
                   sun := sun u + (l - level u), water := water u + (l - level u)\<rparr>)]\<rparr>))
     \<and> (level u = 1 \<and> exp u = 5 \<longrightarrow>
          check_level_up uid w =
            (([LevelUpMsg 2], None),
             w\<lparr>rows := (rows w)(uid \<mapsto> u\<lparr>level := 2, exp := 0,
                     sun := sun u + 1, water := water u + 1\<rparr>),
               journal := journal w @
                 [(uid, u\<lparr>level := 2, exp := 0,
                     sun := sun u + 1, water := water u + 1\<rparr>)]\<rparr>))"
proof (rule conjI)
  define req where "req k = \<lceil>5 * (real_of_int k powr 1.6)\<rceil>" for k :: int
  have req: "\<forall>k. 0 \<le> k \<longrightarrow> exp_needed_for k = Inr (req k)"
    by (simp add: exp_needed_for_def req_def)
  obtain l e where le: "level u \<le> l"
    and loop: "level_loop (level u) (exp u) (sun u) (water u) =
         (map LevelUpMsg [level u + 1..l],
          Inr (l, e, sun u + (l - level u), water u + (l - level u)))"
    and chk: "check_level_up uid w =
         ((map LevelUpMsg [level u + 1..l], None),
          w\<lparr>rows := (rows w)(uid \<mapsto> u\<lparr>level := l, exp := e,
                  sun := sun u + (l - level u), water := water u + (l - level u)\<rparr>),
            journal := journal w @
              [(uid, u\<lparr>level := l, exp := e,
                  sun := sun u + (l - level u), water := water u + (l - level u)\<rparr>)]\<rparr>)"
    using check_level_up_row [OF assms] by blast
  note cl = level_loop_closed [OF req assms(2) loop]
  show "\<exists>req l e.
        (\<forall>k. 0 \<le> k \<longrightarrow> exp_needed_for k = Inr (req k))
      \<and> level u \<le> l
      \<and> (\<forall>k\<in>{level u..<l}. k < MAX_LEVEL \<and> req k \<le> exp u - (\<Sum>j = level u..<k. req j))
      \<and> e = exp u - (\<Sum>k = level u..<l. req k)
      \<and> \<not> (l < MAX_LEVEL \<and> req l \<le> e)
      \<and> check_level_up uid w =
          ((map LevelUpMsg [level u + 1..l], None),
           w\<lparr>rows := (rows w)(uid \<mapsto> u\<lparr>level := l, exp := e,
                   sun := sun u + (l - level u), water := water u + (l - level u)\<rparr>),
             journal := journal w @
               [(uid, u\<lparr>level := l, exp := e,
                   sun := sun u + (l - level u), water := water u + (l - level u)\<rparr>)]\<rparr>)"
    using req le cl chk by blast
next
  have "level_loop 2 0 (sun u + 1) (water u + 1) = ([], Inr (2, 0, sun u + 1, water u + 1))"
    by (rule level_loop_short [where need = 16]) (simp_all add: MAX_LEVEL_def exp_needed_for_values)
  then have d: "level_loop 1 5 (sun u) (water u) = ([LevelUpMsg 2], Inr (2, 0, sun u + 1, water u + 1))"
    using level_loop_step [of 1 5 5 "sun u" "water u"]
    by (simp add: MAX_LEVEL_def exp_needed_for_values)
  show "level u = 1 \<and> exp u = 5 \<longrightarrow>
          check_level_up uid w =
            (([LevelUpMsg 2], None),
             w\<lparr>rows := (rows w)(uid \<mapsto> u\<lparr>level := 2, exp := 0,
                     sun := sun u + 1, water := water u + 1\<rparr>),
               journal := journal w @
                 [(uid, u\<lparr>level := 2, exp := 0,
                     sun := sun u + 1, water := water u + 1\<rparr>)]\<rparr>)"
    by (simp add: check_level_up_def get_user_def assms(1) d update_user_row [OF assms(1)])
qed

theorem level_up_rollover_witness:
  "rows (one_user \<lparr>user_id = 7, created = 5, last_water = 0, last_daily = 0,
                    level = 1, exp = 25, sun = 3, water = 4\<rparr>) 7 =
     Some \<lparr>user_id = 7, created = 5, last_water = 0, last_daily = 0,
           level = 1, exp = 25, sun = 3, water = 4\<rparr>
   \<and> (0::int) \<le> 1
   \<and> exp_needed_for 1 = Inr 5 \<and> exp_needed_for 2 = Inr 16 \<and> exp_needed_for 3 = Inr 29
   \<and> (1::int) \<in> {1..<3} \<and> (2::int) \<in> {1..<3}
   \<and> check_level_up 7
        (one_user \<lparr>user_id = 7, created = 5, last_water = 0, last_daily = 0,
                   level = 1, exp = 25, sun = 3, water = 4\<rparr>) =
       (([LevelUpMsg 2, LevelUpMsg 3], None),
        \<lparr>rows = [7 \<mapsto> \<lparr>user_id = 7, created = 5, last_water = 0, last_daily = 0,
                         level = 3, exp = 4, sun = 5, water = 6\<rparr>],
         sun_attr = None,
         journal = [(7, \<lparr>user_id = 7, created = 5, last_water = 0, last_daily = 0,
                         level = 3, exp = 4, sun = 5, water = 6\<rparr>)]\<rparr>)
   \<and> rows (one_user \<lparr>user_id = 7, created = 5, last_water = 0, last_daily = 0,
                      level = 1, exp = 5, sun = 3, water = 4\<rparr>) 7 =
       Some \<lparr>user_id = 7, created = 5, last_water = 0, last_daily = 0,
             level = 1, exp = 5, sun = 3, water = 4\<rparr>
   \<and> check_level_up 7
        (one_user \<lparr>user_id = 7, created = 5, last_water = 0, last_daily = 0,
                   level = 1, exp = 5, sun = 3, water = 4\<rparr>) =
       (([LevelUpMsg 2], None),
        \<lparr>rows = [7 \<mapsto> \<lparr>user_id = 7, created = 5, last_water = 0, last_daily = 0,
                         level = 2, exp = 0, sun = 4, water = 5\<rparr>],
         sun_attr = None,
         journal = [(7, \<lparr>user_id = 7, created = 5, last_water = 0, last_daily = 0,
                         level = 2, exp = 0, sun = 4, water = 5\<rparr>)]\<rparr>)"
  using level_up_rollover [of
      "one_user \<lparr>user_id = 7, created = 5, last_water = 0, last_daily = 0,
                 level = 1, exp = 25, sun = 3, water = 4\<rparr>" 7
      "\<lparr>user_id = 7, created = 5, last_water = 0, last_daily = 0,
        level = 1, exp = 25, sun = 3, water = 4\<rparr>"]
    level_up_rollover [of
      "one_user \<lparr>user_id = 7, created = 5, last_water = 0, last_daily = 0,
                 level = 1, exp = 5, sun = 3, water = 4\<rparr>" 7
      "\<lparr>user_id = 7, created = 5, last_water = 0, last_daily = 0,
        level = 1, exp = 5, sun = 3, water = 4\<rparr>"]
  by (simp add: run_defs)

lemma levels_world0: "levels_in_range world0"
  by (simp add: levels_in_range_def world0_def)

lemma levels_ensure_user:
  "levels_in_range w \<Longrightarrow> levels_in_range (ensure_user uid t w)"
  by (auto simp add: levels_in_range_def ensure_user_def Let_def MAX_LEVEL_def
        split: option.splits if_splits)

lemma levels_update_user:
  assumes "levels_in_range w" "\<And>u. level (fold apply_assign kw u) = level u"
  shows "levels_in_range (update_user uid kw w)"
  using assms
  by (auto simp add: levels_in_range_def update_user_def Let_def split: option.splits if_splits)

lemma levels_sun_attr: "levels_in_range (w\<lparr>sun_attr := a\<rparr>) = levels_in_range w"
  by (simp add: levels_in_range_def)

lemma levels_check_level_up:
  assumes "levels_in_range w"
  shows "levels_in_range (snd (check_level_up uid w))"
proof (cases "rows w uid")
  case None
  then show ?thesis using assms by (simp add: check_level_up_def get_user_def)
next
  case (Some u)
  have r: "1 \<le> level u" "level u \<le> MAX_LEVEL"
    using assms Some by (auto simp add: levels_in_range_def)
  then have l0: "0 \<le> level u" by simp
  obtain l e where le: "level u \<le> l"
    and eq: "level_loop (level u) (exp u) (sun u) (water u) =
      (map LevelUpMsg [level u + 1..l],
       Inr (l, e, sun u + (l - level u), water u + (l - level u)))"
    using level_loop_shape [OF l0, of "exp u" "sun u" "water u"] by blast
  have "l \<le> MAX_LEVEL"
    using level_loop_count [OF l0 eq] r(2) by simp
  moreover have "1 \<le> l"
    using le r(1) by simp
  ultimately show ?thesis
    using assms Some eq
    by (auto simp add: check_level_up_def get_user_def update_user_def Let_def
          levels_in_range_def)
qed

lemma levels_after_reply:
  "levels_in_range (snd (after_reply m res)) = levels_in_range (snd res)"
  by (simp add: after_reply_snd)

lemma levels_dispatch:
  assumes "levels_in_range w"
  shows "levels_in_range (snd (dispatch act a name t0 now w))"
proof -
  note e = levels_ensure_user [OF assms, of a t0]
  show ?thesis
  proof (cases act)
    case Water
    then show ?thesis using e
      by (simp add: handler_water_def Let_def levels_after_reply levels_check_level_up
            levels_update_user split: option.splits)
  next
    case Sun
    then show ?thesis using e
      by (simp add: handler_sun_def Let_def levels_after_reply levels_check_level_up
            levels_update_user levels_sun_attr split: option.splits)
  next
    case Daily
    then show ?thesis using e
      by (simp add: handler_daily_def Let_def levels_after_reply levels_check_level_up
            levels_update_user split: option.splits)
  qed (use e assms in \<open>simp_all add: cmd_start_def handler_status_def handler_profile_def
         Let_def split: option.splits sum.splits\<close>)
qed



text \<open>
  Claim C9. For every level of at least 1 and any experience, the loop written with no
  assumption about its termination returns, and returns without raising; it runs at most
  \<open>MAX_LEVEL - level\<close> times (not at all from a level above \<open>MAX_LEVEL\<close>), and the
  requirement of a level of at least 1 is positive.
\<close>

theorem rollover_terminates:
  assumes "1 \<le> lvl"
  shows "\<exists>ms st. level_loop_run lvl xp sn wt = Some (ms, Inr st)
           \<and> level_loop lvl xp sn wt = (ms, Inr st)
           \<and> int (length ms) \<le> max 0 (MAX_LEVEL - lvl)
           \<and> (\<exists>n. exp_needed_for lvl = Inr n \<and> 0 < n)"
proof -
  have l0: "0 \<le> lvl" using assms by simp
  obtain l e where eq: "level_loop lvl xp sn wt =
      (map LevelUpMsg [lvl + 1..l], Inr (l, e, sn + (l - lvl), wt + (l - lvl)))"
    using level_loop_shape [OF l0, of xp sn wt] by blast
  have "int (length (map LevelUpMsg [lvl + 1..l])) \<le> max 0 (MAX_LEVEL - lvl)"
    using level_loop_count [OF l0 eq] by linarith
  then show ?thesis
    using eq exp_needed_for_positive [OF assms] by (simp add: level_loop_run_total)
qed

theorem rollover_terminates_witness:
  "(1::int) \<le> 1
   \<and> level_loop_run 1 5 0 0 = Some ([LevelUpMsg 2], Inr (2, 0, 1, 1))
   \<and> int (length [LevelUpMsg 2]) \<le> max 0 (MAX_LEVEL - 1)
   \<and> exp_needed_for 1 = Inr 5 \<and> (0::int) < 5"
  using rollover_terminates [of 1 5 0 0]
  by (simp add: level_loop.simps exp_needed_for_values MAX_LEVEL_def)

section \<open>The handlers\<close>

lemma level_loop_exit:
  "0 \<le> lvl \<Longrightarrow> level_loop lvl xp sn wt = (ms, Inr (l, e, s, w)) \<Longrightarrow> l < MAX_LEVEL \<Longrightarrow>
   \<exists>n. exp_needed_for l = Inr n \<and> e < n"
proof (induction lvl xp sn wt arbitrary: ms rule: level_loop.induct)
  case (1 lvl xp sn wt)
  show ?case
  proof (cases "lvl < MAX_LEVEL")
    case False
    then show ?thesis using "1.prems" by (simp add: level_loop_stop)
  next
    case True
    obtain need where need: "exp_needed_for lvl = Inr need"
      using exp_needed_for_defined [OF "1.prems"(1)] by blast
    show ?thesis
    proof (cases "need \<le> xp")
      case False
      then show ?thesis using True need "1.prems" by (simp add: level_loop_short)
    next
      case le: True
      obtain ms' where rec: "level_loop (lvl + 1) (xp - need) (sn + 1) (wt + 1) = (ms', Inr (l, e, s, w))"
        using "1.prems"(2) True need le
        by (simp add: level_loop_step split: prod.splits)
      show ?thesis
        using "1.IH" [OF True need le _ rec "1.prems"(3)] "1.prems"(1) by simp
    qed
  qed
qed

lemma ensure_user_sun_attr: "sun_attr (ensure_user uid t w) = sun_attr w"
  by (simp add: ensure_user_def Let_def split: option.splits)

text \<open>What \<^verbatim>\<open>check_level_up\<close> does right after an update of a row whose level is not negative.\<close>

lemma check_level_up_after_update:
  assumes "rows w uid = Some u" "kw \<noteq> []" "u1 = fold apply_assign kw u" "0 \<le> level u1"
  shows "\<exists>ms l e s wt.
     level_loop (level u1) (exp u1) (sun u1) (water u1) = (ms, Inr (l, e, s, wt))
     \<and> check_level_up uid (update_user uid kw w) =
         ((ms, None),
          w\<lparr>rows := (rows w)(uid \<mapsto> u1\<lparr>level := l, exp := e, sun := s, water := wt\<rparr>),
            journal := journal w @
              [(uid, u1), (uid, u1\<lparr>level := l, exp := e, sun := s, water := wt\<rparr>)]\<rparr>)"
proof -
  obtain l e where eq: "level_loop (level u1) (exp u1) (sun u1) (water u1) =
      (map LevelUpMsg [level u1 + 1..l],
       Inr (l, e, sun u1 + (l - level u1), water u1 + (l - level u1)))"
    using level_loop_shape [OF assms(4)] by blast
  have upd: "update_user uid kw w =
      w\<lparr>rows := (rows w)(uid \<mapsto> u1), journal := journal w @ [(uid, u1)]\<rparr>"
    using update_user_row [OF assms(1,2)] assms(3) by simp
  define w1 where "w1 = w\<lparr>rows := (rows w)(uid \<mapsto> u1), journal := journal w @ [(uid, u1)]\<rparr>"
  define u2 where "u2 = u1\<lparr>level := l, exp := e,
                 sun := sun u1 + (l - level u1), water := water u1 + (l - level u1)\<rparr>"
  have r1: "rows w1 uid = Some u1"
    by (simp add: w1_def)
  have "check_level_up uid w1 =
          ((map LevelUpMsg [level u1 + 1..l], None),
           update_user uid [SetLevel l, SetExp e, SetSun (sun u1 + (l - level u1)),
             SetWater (water u1 + (l - level u1))] w1)"
    by (simp add: check_level_up_def get_user_def r1 eq)
  also have "update_user uid [SetLevel l, SetExp e, SetSun (sun u1 + (l - level u1)),
             SetWater (water u1 + (l - level u1))] w1 =
          w1\<lparr>rows := (rows w1)(uid \<mapsto> u2), journal := journal w1 @ [(uid, u2)]\<rparr>"
    by (simp add: update_user_row [OF r1] u2_def)
  also have "\<dots> = w\<lparr>rows := (rows w)(uid \<mapsto> u2), journal := journal w @ [(uid, u1), (uid, u2)]\<rparr>"
    by (simp add: w1_def)
  finally have "check_level_up uid (update_user uid kw w) =
         ((map LevelUpMsg [level u1 + 1..l], None),
          w\<lparr>rows := (rows w)(uid \<mapsto> u2), journal := journal w @ [(uid, u1), (uid, u2)]\<rparr>)"
    by (simp only: upd w1_def)
  then show ?thesis using eq unfolding u2_def by blast
qed

lemma py_int_pos: "0 < x \<Longrightarrow> py_int x = \<lfloor>x\<rfloor>"
  by (simp add: py_int_def)

lemma handler_water_blocked:
  assumes "rows (ensure_user uid t0 w) uid = Some u" "now - last_water u < WATER_COOLDOWN"
  shows "handler_water uid t0 now w =
           (([WaterWait (\<lfloor>WATER_COOLDOWN - (now - last_water u)\<rfloor> div 60)
                        (\<lfloor>WATER_COOLDOWN - (now - last_water u)\<rfloor> mod 60)], None),
            ensure_user uid t0 w)"
  using assms by (simp add: handler_water_def Let_def get_user_def py_int_pos)

lemma handler_water_ok:
  assumes "rows (ensure_user uid t0 w) uid = Some u" "\<not> now - last_water u < WATER_COOLDOWN"
  shows "handler_water uid t0 now w =
           after_reply WaterOk (check_level_up uid (update_user uid
             [SetWater (water u + 1), SetExp (exp u + 2), SetLastWater now]
             (ensure_user uid t0 w)))"
  using assms by (simp add: handler_water_def Let_def get_user_def)

lemma handler_sun_blocked:
  assumes "rows (ensure_user uid t0 w) uid = Some u" "now - getattr_last_sun w < SUN_COOLDOWN"
  shows "handler_sun uid t0 now w =
           (([SunWait (\<lfloor>SUN_COOLDOWN - (now - getattr_last_sun w)\<rfloor> div 60)
                      (\<lfloor>SUN_COOLDOWN - (now - getattr_last_sun w)\<rfloor> mod 60)], None),
            ensure_user uid t0 w)"
  using assms
  by (simp add: handler_sun_def Let_def get_user_def py_int_pos getattr_last_sun_def
        ensure_user_sun_attr)

lemma handler_sun_ok:
  assumes "rows (ensure_user uid t0 w) uid = Some u" "\<not> now - getattr_last_sun w < SUN_COOLDOWN"
  shows "handler_sun uid t0 now w =
           after_reply SunOk (check_level_up uid (update_user uid
             [SetSun (sun u + 1), SetExp (exp u + 2)]
             ((ensure_user uid t0 w)\<lparr>sun_attr := Some now\<rparr>)))"
  using assms
  by (simp add: handler_sun_def Let_def get_user_def getattr_last_sun_def ensure_user_sun_attr)

lemma handler_daily_blocked:
  assumes "rows (ensure_user uid t0 w) uid = Some u" "now - last_daily u < DAILY_COOLDOWN"
  shows "handler_daily uid t0 now w =
           (([DailyWait (\<lfloor>DAILY_COOLDOWN - (now - last_daily u)\<rfloor> div 3600)
                        ((\<lfloor>DAILY_COOLDOWN - (now - last_daily u)\<rfloor> mod 3600) div 60)], None),
            ensure_user uid t0 w)"
proof -
  have eq: "last_daily u + DAILY_COOLDOWN - now = DAILY_COOLDOWN - (now - last_daily u)"
    by simp
  show ?thesis
    using assms by (simp add: handler_daily_def Let_def get_user_def py_int_pos) (simp only: eq)
qed

lemma handler_daily_ok:
  assumes "rows (ensure_user uid t0 w) uid = Some u" "\<not> now - last_daily u < DAILY_COOLDOWN"
  shows "handler_daily uid t0 now w =
           after_reply (DailyOk (1 + level u div 5) (1 + level u div 6) (5 + level u))
             (check_level_up uid (update_user uid
               [SetSun (sun u + (1 + level u div 5)), SetWater (water u + (1 + level u div 6)),
                SetExp (exp u + (5 + level u)), SetLastDaily now]
               (ensure_user uid t0 w)))"
  using assms by (simp add: handler_daily_def Let_def get_user_def)

lemma after_reply_head: "\<exists>ms e w'. after_reply m res = ((m # ms, e), w')"
  by (simp add: after_reply_def split: prod.splits)

lemma settle:
  assumes "rows w1 uid = Some u" "kw \<noteq> []" "u1 = fold apply_assign kw u" "0 \<le> level u1"
  shows "\<exists>ms l e s wt w'.
     level_loop (level u1) (exp u1) (sun u1) (water u1) = (ms, Inr (l, e, s, wt))
     \<and> after_reply m (check_level_up uid (update_user uid kw w1)) = ((m # ms, None), w')
     \<and> journal w' = journal w1 @
           [(uid, u1), (uid, u1\<lparr>level := l, exp := e, sun := s, water := wt\<rparr>)]
     \<and> rows w' uid = Some (u1\<lparr>level := l, exp := e, sun := s, water := wt\<rparr>)
     \<and> sun_attr w' = sun_attr w1
     \<and> (l < MAX_LEVEL \<longrightarrow> (\<exists>n. exp_needed_for l = Inr n \<and> e < n))"
proof -
  obtain ms l e s wt where
    loop: "level_loop (level u1) (exp u1) (sun u1) (water u1) = (ms, Inr (l, e, s, wt))"
    and chk: "check_level_up uid (update_user uid kw w1) =
         ((ms, None),
          w1\<lparr>rows := (rows w1)(uid \<mapsto> u1\<lparr>level := l, exp := e, sun := s, water := wt\<rparr>),
             journal := journal w1 @
               [(uid, u1), (uid, u1\<lparr>level := l, exp := e, sun := s, water := wt\<rparr>)]\<rparr>)"
    using check_level_up_after_update [OF assms] by blast
  define w' where "w' = w1\<lparr>rows := (rows w1)(uid \<mapsto> u1\<lparr>level := l, exp := e, sun := s, water := wt\<rparr>),
             journal := journal w1 @
               [(uid, u1), (uid, u1\<lparr>level := l, exp := e, sun := s, water := wt\<rparr>)]\<rparr>"
  have ex: "l < MAX_LEVEL \<longrightarrow> (\<exists>n. exp_needed_for l = Inr n \<and> e < n)"
    using level_loop_exit [OF assms(4) loop] by blast
  have ar: "after_reply m (check_level_up uid (update_user uid kw w1)) = ((m # ms, None), w')"
    by (simp add: chk after_reply_def w'_def)
  have pr: "journal w' = journal w1 @
           [(uid, u1), (uid, u1\<lparr>level := l, exp := e, sun := s, water := wt\<rparr>)]"
    "rows w' uid = Some (u1\<lparr>level := l, exp := e, sun := s, water := wt\<rparr>)"
    "sun_attr w' = sun_attr w1"
    by (simp_all add: w'_def)
  show ?thesis using loop ar pr ex by blast
qed

lemma level_loop_same_level:
  assumes "0 \<le> lvl" "level_loop lvl xp sn wt = (ms, Inr (lvl, e, s, w))"
  shows "e = xp"
proof (cases "lvl < MAX_LEVEL")
  case False
  then show ?thesis using assms(2) by (simp add: level_loop_stop)
next
  case True
  obtain need where need: "exp_needed_for lvl = Inr need"
    using exp_needed_for_defined [OF assms(1)] by blast
  show ?thesis
  proof (cases "need \<le> xp")
    case False
    then show ?thesis using True need assms(2) by (simp add: level_loop_short)
  next
    case le: True
    have l1: "0 \<le> lvl + 1" using assms(1) by simp
    obtain l' e' where "lvl + 1 \<le> l'"
      "level_loop (lvl + 1) (xp - need) (sn + 1) (wt + 1) =
         (map LevelUpMsg [lvl + 1 + 1..l'], Inr (l', e', sn + 1 + (l' - (lvl + 1)), wt + 1 + (l' - (lvl + 1))))"
      using level_loop_shape [OF l1, of "xp - need" "sn + 1" "wt + 1"] by blast
    then show ?thesis
      using assms(2) True need le by (simp add: level_loop_step)
  qed
qed

text \<open>
  The gate as the program has it. With \<open>u\<close> the sender's row once \<^verbatim>\<open>ensure_user\<close>
  has run, \<open>D\<close> the cooldown of the action and \<open>T\<close> the time the program compares with
  (the column \<^verbatim>\<open>last_water\<close> or \<^verbatim>\<open>last_daily\<close> of the row; for sun the attribute of
  the handler): when \<open>now - T < D\<close> the handler sends one reply, the waiting time computed
  from the whole seconds of \<open>D - (now - T)\<close>, and returns the state that
  \<^verbatim>\<open>ensure_user\<close> left; otherwise, so also when \<open>now - T = D\<close>, its first reply is that
  of the action performed.
\<close>

theorem cooldown_gate:
  assumes "rows (ensure_user uid t0 w) uid = Some u"
  shows
    "(now - last_water u < WATER_COOLDOWN \<longrightarrow>
        handler_water uid t0 now w =
          (([WaterWait (\<lfloor>WATER_COOLDOWN - (now - last_water u)\<rfloor> div 60)
                       (\<lfloor>WATER_COOLDOWN - (now - last_water u)\<rfloor> mod 60)], None),
           ensure_user uid t0 w))
     \<and> (\<not> now - last_water u < WATER_COOLDOWN \<longrightarrow>
          (\<exists>ms e w'. handler_water uid t0 now w = ((WaterOk # ms, e), w')))
     \<and> (now - getattr_last_sun w < SUN_COOLDOWN \<longrightarrow>
          handler_sun uid t0 now w =
            (([SunWait (\<lfloor>SUN_COOLDOWN - (now - getattr_last_sun w)\<rfloor> div 60)
                       (\<lfloor>SUN_COOLDOWN - (now - getattr_last_sun w)\<rfloor> mod 60)], None),
             ensure_user uid t0 w))
     \<and> (\<not> now - getattr_last_sun w < SUN_COOLDOWN \<longrightarrow>
          (\<exists>ms e w'. handler_sun uid t0 now w = ((SunOk # ms, e), w')))
     \<and> (now - last_daily u < DAILY_COOLDOWN \<longrightarrow>
          handler_daily uid t0 now w =
            (([DailyWait (\<lfloor>DAILY_COOLDOWN - (now - last_daily u)\<rfloor> div 3600)
                         ((\<lfloor>DAILY_COOLDOWN - (now - last_daily u)\<rfloor> mod 3600) div 60)], None),
             ensure_user uid t0 w))
     \<and> (\<not> now - last_daily u < DAILY_COOLDOWN \<longrightarrow>
          (\<exists>ms e w'. handler_daily uid t0 now w =
             ((DailyOk (1 + level u div 5) (1 + level u div 6) (5 + level u) # ms, e), w')))
     \<and> (rows w uid \<noteq> None \<longrightarrow> ensure_user uid t0 w = w)"
proof -
  have a: "rows w uid \<noteq> None \<longrightarrow> ensure_user uid t0 w = w"
    by (auto simp add: ensure_user_existing)
  show ?thesis
    using a handler_water_blocked [OF assms] handler_sun_blocked [OF assms]
      handler_daily_blocked [OF assms]
    by (simp add: handler_water_ok [OF assms] handler_sun_ok [OF assms]
          handler_daily_ok [OF assms] after_reply_head)
qed

text \<open>
  Claim C5. The claim takes the time \<open>T\<close> of a user who has never performed the action as
  zero. User 2 below has a row and has never given sun, and \<open>now - 0\<close> is not below the
  cooldown, yet one second after the sun of user 1 the sun of user 2 is blocked with a
  wait of 9 minutes 59 seconds: the gate of sun compares with the handler's attribute, which
  the sun of any user sets. The gate of water compares with the user's own column, and the
  water of user 2 one second after that of user 1 is performed.
\<close>

theorem sun_gate_not_per_user:
  "rows (snd (handler_sun 1 1700000000 1700000000 (snd (cmd_start 2 1699999000 world0)))) 2 =
     Some \<lparr>user_id = 2, created = 1699999000, last_water = 0, last_daily = 0,
           level = 1, exp = 0, sun = 0, water = 0\<rparr>
   \<and> \<not> (1700000001 - 0 < SUN_COOLDOWN)
   \<and> handler_sun 2 1700000001 1700000001
        (snd (handler_sun 1 1700000000 1700000000 (snd (cmd_start 2 1699999000 world0)))) =
       (([SunWait 9 59], None),
        snd (handler_sun 1 1700000000 1700000000 (snd (cmd_start 2 1699999000 world0))))
   \<and> fst (handler_water 2 1700000001 1700000001
        (snd (handler_water 1 1700000000 1700000000 (snd (cmd_start 2 1699999000 world0))))) =
       ([WaterOk], None)"
  by (simp add: run_defs cmd_start_def)

text \<open>
  Claim C7. A daily bonus that is not blocked, for a user at level \<open>L\<close> (not negative),
  replies with the rewards \<open>1 + L div 5\<close>, \<open>1 + L div 6\<close> and \<open>5 + L\<close> and writes the
  row with exactly these added to sun, water and experience and with \<^verbatim>\<open>last_daily\<close> set
  to \<open>now\<close>. The row stored at the end has, beyond that, one sun, one water and one level
  for each level-up reply, and the experience untouched when there is none. At level 10
  the additions are 3, 2 and 15.
\<close>

theorem daily_bonus_reward:
  assumes "rows (ensure_user uid t0 w) uid = Some u"
    "\<not> now - last_daily u < DAILY_COOLDOWN" "0 \<le> level u"
  shows "\<exists>ms w' rest g e.
      handler_daily uid t0 now w =
        ((DailyOk (1 + level u div 5) (1 + level u div 6) (5 + level u) # ms, None), w')
      \<and> journal w' = journal (ensure_user uid t0 w) @
           (uid, u\<lparr>last_daily := now, exp := exp u + (5 + level u),
                   sun := sun u + (1 + level u div 5),
                   water := water u + (1 + level u div 6)\<rparr>) # rest
      \<and> 0 \<le> g \<and> int (length ms) = g
      \<and> rows w' uid =
           Some (u\<lparr>last_daily := now, level := level u + g, exp := e,
                   sun := sun u + (1 + level u div 5) + g,
                   water := water u + (1 + level u div 6) + g\<rparr>)
      \<and> (g = 0 \<longrightarrow> e = exp u + (5 + level u))"
proof -
  define u1 where "u1 = u\<lparr>last_daily := now, exp := exp u + (5 + level u),
           sun := sun u + (1 + level u div 5), water := water u + (1 + level u div 6)\<rparr>"
  have l1: "0 \<le> level u1" using assms(3) by (simp add: u1_def)
  obtain ms l e s wt w' where
    loop: "level_loop (level u1) (exp u1) (sun u1) (water u1) = (ms, Inr (l, e, s, wt))"
    and run: "handler_daily uid t0 now w =
        ((DailyOk (1 + level u div 5) (1 + level u div 6) (5 + level u) # ms, None), w')"
    and jr: "journal w' = journal (ensure_user uid t0 w) @
           [(uid, u1), (uid, u1\<lparr>level := l, exp := e, sun := s, water := wt\<rparr>)]"
    and rw: "rows w' uid = Some (u1\<lparr>level := l, exp := e, sun := s, water := wt\<rparr>)"
    using settle [OF assms(1), of
        "[SetSun (sun u + (1 + level u div 5)), SetWater (water u + (1 + level u div 6)),
          SetExp (exp u + (5 + level u)), SetLastDaily now]" u1
        "DailyOk (1 + level u div 5) (1 + level u div 6) (5 + level u)"] l1
    by (auto simp add: u1_def handler_daily_ok [OF assms(1,2)])
  obtain l' e' where sh: "level_loop (level u1) (exp u1) (sun u1) (water u1) =
      (map LevelUpMsg [level u1 + 1..l'],
       Inr (l', e', sun u1 + (l' - level u1), water u1 + (l' - level u1)))"
    and le: "level u1 \<le> l'"
    using level_loop_shape [OF l1, of "exp u1" "sun u1" "water u1"] by blast
  have s: "s = sun u1 + (l - level u1)" and wt: "wt = water u1 + (l - level u1)"
    and ll: "level u1 \<le> l"
    using loop sh le by simp_all
  have cnt: "int (length ms) = l - level u1"
    using level_loop_count [OF l1 loop] by simp
  have same: "l - level u = 0 \<longrightarrow> e = exp u + (5 + level u)"
    using level_loop_same_level [OF l1, of "exp u1" "sun u1" "water u1" ms e s wt] loop
    by (auto simp add: u1_def)
  have "rows w' uid =
           Some (u\<lparr>last_daily := now, level := level u + (l - level u), exp := e,
                   sun := sun u + (1 + level u div 5) + (l - level u),
                   water := water u + (1 + level u div 6) + (l - level u)\<rparr>)"
    using rw s wt by (simp add: u1_def)
  moreover have "0 \<le> l - level u" "int (length ms) = l - level u"
    using ll cnt by (simp_all add: u1_def)
  moreover have "journal w' = journal (ensure_user uid t0 w) @
           (uid, u\<lparr>last_daily := now, exp := exp u + (5 + level u),
                   sun := sun u + (1 + level u div 5),
                   water := water u + (1 + level u div 6)\<rparr>) #
           [(uid, u1\<lparr>level := l, exp := e, sun := s, water := wt\<rparr>)]"
    using jr by (simp add: u1_def)
  ultimately show ?thesis using run same by blast
qed

theorem daily_bonus_reward_witness:
  "rows (ensure_user 7 1700000000
      (one_user \<lparr>user_id = 7, created = 5, last_water = 0, last_daily = 0,
                 level = 10, exp = 0, sun = 20, water = 20\<rparr>)) 7 =
     Some \<lparr>user_id = 7, created = 5, last_water = 0, last_daily = 0,
           level = 10, exp = 0, sun = 20, water = 20\<rparr>
   \<and> \<not> (1700000000 - 0 < DAILY_COOLDOWN) \<and> (0::int) \<le> 10
   \<and> handler_daily 7 1700000000 1700000000
       (one_user \<lparr>user_id = 7, created = 5, last_water = 0, last_daily = 0,
                  level = 10, exp = 0, sun = 20, water = 20\<rparr>) =
       (([DailyOk 3 2 15], None),
        \<lparr>rows = [7 \<mapsto> \<lparr>user_id = 7, created = 5, last_water = 0, last_daily = 1700000000,
                         level = 10, exp = 15, sun = 23, water = 22\<rparr>],
         sun_attr = None,
         journal =
           [(7, \<lparr>user_id = 7, created = 5, last_water = 0, last_daily = 1700000000,
                 level = 10, exp = 15, sun = 23, water = 22\<rparr>),
            (7, \<lparr>user_id = 7, created = 5, last_water = 0, last_daily = 1700000000,
                 level = 10, exp = 15, sun = 23, water = 22\<rparr>)]\<rparr>)"
  using daily_bonus_reward [of 7 1700000000
      "one_user \<lparr>user_id = 7, created = 5, last_water = 0, last_daily = 0,
                 level = 10, exp = 0, sun = 20, water = 20\<rparr>"
      "\<lparr>user_id = 7, created = 5, last_water = 0, last_daily = 0,
        level = 10, exp = 0, sun = 20, water = 20\<rparr>" 1700000000]
  by (simp add: run_defs)

text \<open>
  Claim C2, amended. A handler of water, sun or the daily bonus that is not blocked (for a
  row whose level is not negative) writes the row twice. The first update holds the reward:
  the counters and the experience, and for water and the daily bonus the cooldown
  timestamp, with the level as it was. The second update, made by \<^verbatim>\<open>check_level_up\<close>
  after its loop has finished, holds the level, experience, sun and water that the loop
  returned for the row written first; it is the row stored at the end, and its experience is
  below the requirement of its level when that level is below \<open>MAX_LEVEL\<close>. The time of
  the last sun is kept in the handler's attribute, not in the row.
\<close>

theorem two_phase_persist:
  assumes "rows (ensure_user uid t0 w) uid = Some u" "0 \<le> level u"
  shows
    "(\<not> now - last_water u < WATER_COOLDOWN \<longrightarrow>
       (\<exists>ms l e s wt w'.
          level_loop (level u) (exp u + 2) (sun u) (water u + 1) = (ms, Inr (l, e, s, wt))
          \<and> handler_water uid t0 now w = ((WaterOk # ms, None), w')
          \<and> journal w' = journal (ensure_user uid t0 w) @
               [(uid, u\<lparr>last_water := now, exp := exp u + 2, water := water u + 1\<rparr>),
                (uid, u\<lparr>last_water := now, level := l, exp := e, sun := s, water := wt\<rparr>)]
          \<and> rows w' uid =
               Some (u\<lparr>last_water := now, level := l, exp := e, sun := s, water := wt\<rparr>)
          \<and> (l < MAX_LEVEL \<longrightarrow> (\<exists>n. exp_needed_for l = Inr n \<and> e < n))))
     \<and> (\<not> now - getattr_last_sun w < SUN_COOLDOWN \<longrightarrow>
       (\<exists>ms l e s wt w'.
          level_loop (level u) (exp u + 2) (sun u + 1) (water u) = (ms, Inr (l, e, s, wt))
          \<and> handler_sun uid t0 now w = ((SunOk # ms, None), w')
          \<and> journal w' = journal (ensure_user uid t0 w) @
               [(uid, u\<lparr>exp := exp u + 2, sun := sun u + 1\<rparr>),
                (uid, u\<lparr>level := l, exp := e, sun := s, water := wt\<rparr>)]
          \<and> rows w' uid = Some (u\<lparr>level := l, exp := e, sun := s, water := wt\<rparr>)
          \<and> sun_attr w' = Some now
          \<and> (l < MAX_LEVEL \<longrightarrow> (\<exists>n. exp_needed_for l = Inr n \<and> e < n))))
     \<and> (\<not> now - last_daily u < DAILY_COOLDOWN \<longrightarrow>
       (\<exists>ms l e s wt w'.
          level_loop (level u) (exp u + (5 + level u)) (sun u + (1 + level u div 5))
            (water u + (1 + level u div 6)) = (ms, Inr (l, e, s, wt))
          \<and> handler_daily uid t0 now w =
              ((DailyOk (1 + level u div 5) (1 + level u div 6) (5 + level u) # ms, None), w')
          \<and> journal w' = journal (ensure_user uid t0 w) @
               [(uid, u\<lparr>last_daily := now, exp := exp u + (5 + level u),
                       sun := sun u + (1 + level u div 5),
                       water := water u + (1 + level u div 6)\<rparr>),
                (uid, u\<lparr>last_daily := now, level := l, exp := e, sun := s, water := wt\<rparr>)]
          \<and> rows w' uid =
               Some (u\<lparr>last_daily := now, level := l, exp := e, sun := s, water := wt\<rparr>)
          \<and> (l < MAX_LEVEL \<longrightarrow> (\<exists>n. exp_needed_for l = Inr n \<and> e < n))))"
proof (intro conjI impI)
  assume ok: "\<not> now - last_water u < WATER_COOLDOWN"
  show "\<exists>ms l e s wt w'.
          level_loop (level u) (exp u + 2) (sun u) (water u + 1) = (ms, Inr (l, e, s, wt))
          \<and> handler_water uid t0 now w = ((WaterOk # ms, None), w')
          \<and> journal w' = journal (ensure_user uid t0 w) @
               [(uid, u\<lparr>last_water := now, exp := exp u + 2, water := water u + 1\<rparr>),
                (uid, u\<lparr>last_water := now, level := l, exp := e, sun := s, water := wt\<rparr>)]
          \<and> rows w' uid =
               Some (u\<lparr>last_water := now, level := l, exp := e, sun := s, water := wt\<rparr>)
          \<and> (l < MAX_LEVEL \<longrightarrow> (\<exists>n. exp_needed_for l = Inr n \<and> e < n))"
    using settle [OF assms(1), of "[SetWater (water u + 1), SetExp (exp u + 2), SetLastWater now]"
        "u\<lparr>last_water := now, exp := exp u + 2, water := water u + 1\<rparr>" WaterOk] assms(2)
    by (simp add: handler_water_ok [OF assms(1) ok]) blast
next
  assume ok: "\<not> now - getattr_last_sun w < SUN_COOLDOWN"
  have r: "rows ((ensure_user uid t0 w)\<lparr>sun_attr := Some now\<rparr>) uid = Some u"
    using assms(1) by simp
  show "\<exists>ms l e s wt w'.
          level_loop (level u) (exp u + 2) (sun u + 1) (water u) = (ms, Inr (l, e, s, wt))
          \<and> handler_sun uid t0 now w = ((SunOk # ms, None), w')
          \<and> journal w' = journal (ensure_user uid t0 w) @
               [(uid, u\<lparr>exp := exp u + 2, sun := sun u + 1\<rparr>),
                (uid, u\<lparr>level := l, exp := e, sun := s, water := wt\<rparr>)]
          \<and> rows w' uid = Some (u\<lparr>level := l, exp := e, sun := s, water := wt\<rparr>)
          \<and> sun_attr w' = Some now
          \<and> (l < MAX_LEVEL \<longrightarrow> (\<exists>n. exp_needed_for l = Inr n \<and> e < n))"
    using settle [OF r, of "[SetSun (sun u + 1), SetExp (exp u + 2)]"
        "u\<lparr>exp := exp u + 2, sun := sun u + 1\<rparr>" SunOk] assms(2)
    by (simp add: handler_sun_ok [OF assms(1) ok])
next
  assume ok: "\<not> now - last_daily u < DAILY_COOLDOWN"
  show "\<exists>ms l e s wt w'.
          level_loop (level u) (exp u + (5 + level u)) (sun u + (1 + level u div 5))
            (water u + (1 + level u div 6)) = (ms, Inr (l, e, s, wt))
          \<and> handler_daily uid t0 now w =
              ((DailyOk (1 + level u div 5) (1 + level u div 6) (5 + level u) # ms, None), w')
          \<and> journal w' = journal (ensure_user uid t0 w) @
               [(uid, u\<lparr>last_daily := now, exp := exp u + (5 + level u),
                       sun := sun u + (1 + level u div 5),
                       water := water u + (1 + level u div 6)\<rparr>),
                (uid, u\<lparr>last_daily := now, level := l, exp := e, sun := s, water := wt\<rparr>)]
          \<and> rows w' uid =
               Some (u\<lparr>last_daily := now, level := l, exp := e, sun := s, water := wt\<rparr>)
          \<and> (l < MAX_LEVEL \<longrightarrow> (\<exists>n. exp_needed_for l = Inr n \<and> e < n))"
    using settle [OF assms(1), of
        "[SetSun (sun u + (1 + level u div 5)), SetWater (water u + (1 + level u div 6)),
          SetExp (exp u + (5 + level u)), SetLastDaily now]"
        "u\<lparr>last_daily := now, exp := exp u + (5 + level u),
           sun := sun u + (1 + level u div 5), water := water u + (1 + level u div 6)\<rparr>"
        "DailyOk (1 + level u div 5) (1 + level u div 6) (5 + level u)"] assms(2)
    by (simp add: handler_daily_ok [OF assms(1) ok]) blast
qed

theorem two_phase_persist_witness:
  "rows (ensure_user 7 200000 (one_user sample_user)) 7 = Some sample_user
   \<and> 0 \<le> level sample_user
   \<and> \<not> 200000 - last_water sample_user < WATER_COOLDOWN
   \<and> \<not> 200000 - getattr_last_sun (one_user sample_user) < SUN_COOLDOWN
   \<and> \<not> 200000 - last_daily sample_user < DAILY_COOLDOWN
   \<and> fst (handler_water 7 200000 200000 (one_user sample_user)) = ([WaterOk], None)
   \<and> journal (snd (handler_water 7 200000 200000 (one_user sample_user))) =
        [(7, sample_user\<lparr>last_water := 200000, exp := 5, water := 4\<rparr>),
         (7, sample_user\<lparr>last_water := 200000, exp := 5, water := 4\<rparr>)]
   \<and> fst (handler_sun 7 200000 200000 (one_user sample_user)) = ([SunOk], None)
   \<and> journal (snd (handler_sun 7 200000 200000 (one_user sample_user))) =
        [(7, sample_user\<lparr>exp := 5, sun := 3\<rparr>), (7, sample_user\<lparr>exp := 5, sun := 3\<rparr>)]
   \<and> sun_attr (snd (handler_sun 7 200000 200000 (one_user sample_user))) = Some 200000
   \<and> fst (handler_daily 7 200000 200000 (one_user sample_user)) = ([DailyOk 1 1 7], None)
   \<and> journal (snd (handler_daily 7 200000 200000 (one_user sample_user))) =
        [(7, sample_user\<lparr>last_daily := 200000, exp := 10, sun := 3, water := 4\<rparr>),
         (7, sample_user\<lparr>last_daily := 200000, exp := 10, sun := 3, water := 4\<rparr>)]"
  using two_phase_persist [of 7 200000 "one_user sample_user" sample_user 200000]
  by (simp add: run_defs sample_user_def)

text \<open>
  The claim as stated fails for a new user who takes the daily bonus: the row is written
  with level 1 and 6 experience, which is at least the 5 that level 1 requires, before the
  row with level 2 is written.
\<close>

theorem two_writes_counterexample:
  "journal (snd (handler_daily 1 1700000000 1700000000 world0)) =
     [(1, \<lparr>user_id = 1, created = 1700000000, last_water = 0, last_daily = 0,
           level = 1, exp = 0, sun = 0, water = 0\<rparr>),
      (1, \<lparr>user_id = 1, created = 1700000000, last_water = 0, last_daily = 1700000000,
           level = 1, exp = 6, sun = 1, water = 1\<rparr>),
      (1, \<lparr>user_id = 1, created = 1700000000, last_water = 0, last_daily = 1700000000,
           level = 2, exp = 1, sun = 2, water = 2\<rparr>)]
   \<and> 1 < MAX_LEVEL \<and> exp_needed_for 1 = Inr 5 \<and> (5::int) \<le> 6"
  by (simp add: run_defs)

text \<open>
  Claim C1. The claim asks for a sun cooldown of each user's own. In the program the time of
  the last sun is one attribute of the handler: in a process that has just started, user 2
  alone is not blocked at time 1700000001, but after user 1's sun at time 1700000000 the
  same message of user 2, who has no row yet and has never given sun, is answered with a
  wait of 9 minutes 59 seconds.
\<close>

theorem sun_cooldown_shared:
  "fst (handler_sun 2 1700000001 1700000001 world0) = ([SunOk], None)
   \<and> rows (snd (handler_sun 1 1700000000 1700000000 world0)) 2 = None
   \<and> fst (handler_sun 2 1700000001 1700000001
            (snd (handler_sun 1 1700000000 1700000000 world0))) = ([SunWait 9 59], None)"
  by (simp add: run_defs)

end
